theory Spec2Isabelle
  imports Complex_Main
begin

section \<open>Timeseries forecasting notebook (fbprophet.ipynb)\<close>

text \<open>
  The notebook is a linear script: it downloads hourly air-quality readings, puts a
  datetime index on them, splits them at the year 2016, resamples each part to daily
  averages, forward-fills the gaps, fits a forecasting model and hands the frames to a
  managed training and serving platform. The data preparation is modelled below as
  executable functions; what the notebook delegates (the optimiser of the forecasting
  library, the platform) enters as a parameter.

  Numbers: the readings are 64-bit floats in the notebook. They are modelled as exact
  rationals, a missing reading (NaN) as \<open>None\<close>. No statement below depends on the
  rounding of a float.
\<close>

subsection \<open>Errors\<close>

datatype py_error =
    ValueError
  | TypeError
  | KeyError
  | AttributeError
  | LibraryError string

subsection \<open>Calendar (Python's \<open>datetime\<close>)\<close>

text \<open>
  \<open>datetime(year, month, day, hour)\<close> checks its fields and raises ValueError when a
  field is out of range. A day is represented by its proleptic Gregorian ordinal, as
  \<open>date.toordinal()\<close> computes it (day 1 is 0001-01-01); a timestamp of hourly
  resolution by the number of hours since the start of day 0.
\<close>

type_synonym day = int
type_synonym timestamp = int

definition is_leap :: "int \<Rightarrow> bool" where
  "is_leap yr \<longleftrightarrow> yr mod 4 = 0 \<and> (yr mod 100 \<noteq> 0 \<or> yr mod 400 = 0)"

definition days_before_year :: "int \<Rightarrow> int" where
  "days_before_year yr =
     (let y1 = yr - 1 in y1 * 365 + y1 div 4 - y1 div 100 + y1 div 400)"

definition days_in_month :: "int \<Rightarrow> int \<Rightarrow> int" where
  "days_in_month yr mo =
     (if mo = 2 \<and> is_leap yr then 29
      else [31, 28, 31, 30, 31, 30, 31, 31, 30, 31, 30, 31] ! nat (mo - 1))"

definition days_before_month :: "int \<Rightarrow> int \<Rightarrow> int" where
  "days_before_month yr mo =
     [0, 31, 59, 90, 120, 151, 181, 212, 243, 273, 304, 334] ! nat (mo - 1)
       + (if mo > 2 \<and> is_leap yr then 1 else 0)"

definition ymd2ord :: "int \<Rightarrow> int \<Rightarrow> int \<Rightarrow> day" where
  "ymd2ord yr mo dy = days_before_year yr + days_before_month yr mo + dy"

definition check_date_fields :: "int \<Rightarrow> int \<Rightarrow> int \<Rightarrow> bool" where
  "check_date_fields yr mo dy \<longleftrightarrow>
     1 \<le> yr \<and> yr \<le> 9999 \<and> 1 \<le> mo \<and> mo \<le> 12 \<and> 1 \<le> dy \<and> dy \<le> days_in_month yr mo"

definition datetime :: "int \<Rightarrow> int \<Rightarrow> int \<Rightarrow> int \<Rightarrow> py_error + timestamp" where
  "datetime yr mo dy hr =
     (if check_date_fields yr mo dy \<and> 0 \<le> hr \<and> hr \<le> 23
      then Inr (ymd2ord yr mo dy * 24 + hr)
      else Inl ValueError)"

definition floor_day :: "timestamp \<Rightarrow> day" where
  "floor_day t = t div 24"

subsection \<open>The dataset and its datetime index (cell 7)\<close>

text \<open>
  One row of the CSV file: the columns the notebook reads. \<open>pm25\<close> is the column
  \<open>PM2.5\<close>; an empty cell is read as NaN.
\<close>

record reading =
  year :: int
  month :: int
  day :: int
  hour :: int
  pm25 :: "rat option"

text \<open>
  \<open>df.index = df.apply(lambda x: datetime(x.year, x.month, x.day, x.hour), axis=1)\<close>:
  the rows are visited in order and the first row whose fields are no date raises.
\<close>

fun set_index :: "reading list \<Rightarrow> py_error + (timestamp \<times> reading) list" where
  "set_index [] = Inr []"
| "set_index (r # rs) =
     (case datetime (year r) (month r) (day r) (hour r) of
        Inl e \<Rightarrow> Inl e
      | Inr t \<Rightarrow> (case set_index rs of Inl e \<Rightarrow> Inl e | Inr ix \<Rightarrow> Inr ((t, r) # ix)))"

subsection \<open>Split, daily resampling and forward fill (cell 10)\<close>

text \<open>\<open>df.loc[mask, "PM2.5"]\<close>: the PM2.5 series of the rows the mask selects.\<close>

definition loc_pm25 ::
  "(reading \<Rightarrow> bool) \<Rightarrow> (timestamp \<times> reading) list \<Rightarrow> (timestamp \<times> rat option) list" where
  "loc_pm25 msk df = map (\<lambda>(t, r). (t, pm25 r)) (filter (\<lambda>(t, r). msk r) df)"

text \<open>\<open>mean()\<close> skips NaN; the mean of no value is NaN.\<close>

definition mean :: "rat list \<Rightarrow> rat option" where
  "mean vs = (if vs = [] then None else Some (sum_list vs / of_nat (length vs)))"

definition bin_values :: "(timestamp \<times> rat option) list \<Rightarrow> day \<Rightarrow> rat list" where
  "bin_values s d = [v. (t, Some v) \<leftarrow> s, floor_day t = d]"

text \<open>
  \<open>resample("1D").mean()\<close>: one bin per calendar day from the day of the earliest
  timestamp to the day of the latest, both included, whether or not a timestamp falls
  into the bin; an empty series gives an empty result. (pandas keeps a timestamp in 64
  bits of nanoseconds, the years 1678 to 2261; with a date outside of them its resample
  raises, where this function returns. The runs that succeed in pandas succeed here,
  with the same frames.)
\<close>

definition resample_1D_mean :: "(timestamp \<times> rat option) list \<Rightarrow> (day \<times> rat option) list" where
  "resample_1D_mean s =
     (if s = [] then []
      else let days = map (\<lambda>(t, v). floor_day t) s;
               lo = fold min (tl days) (hd days);
               hi = fold max (tl days) (hd days)
           in map (\<lambda>d. (d, mean (bin_values s d))) [lo..hi])"

record row =
  ds :: day
  y :: "rat option"

type_synonym frame = "row list"

text \<open>\<open>reset_index().rename(columns={"index":"ds", "PM2.5":"y"})\<close>\<close>

definition reset_index_rename :: "(day \<times> rat option) list \<Rightarrow> frame" where
  "reset_index_rename s = map (\<lambda>(d, v). \<lparr>ds = d, y = v\<rparr>) s"

text \<open>
  \<open>fillna(method="ffill")\<close>: a missing value takes the last value seen above it; with
  nothing above it, it stays missing.
\<close>

fun ffill_from :: "rat option \<Rightarrow> frame \<Rightarrow> frame" where
  "ffill_from prev [] = []"
| "ffill_from prev (r # rs) =
     (case y r of
        None \<Rightarrow> r\<lparr>y := prev\<rparr> # ffill_from prev rs
      | Some v \<Rightarrow> r # ffill_from (Some v) rs)"

definition fillna_ffill :: "frame \<Rightarrow> frame" where
  "fillna_ffill f = ffill_from None f"

definition train_mask :: "reading \<Rightarrow> bool" where
  "train_mask r \<longleftrightarrow> year r < 2016"

definition test_mask :: "reading \<Rightarrow> bool" where
  "test_mask r \<longleftrightarrow> year r \<ge> 2016"

definition daily_frame :: "(reading \<Rightarrow> bool) \<Rightarrow> (timestamp \<times> reading) list \<Rightarrow> frame" where
  "daily_frame msk df = reset_index_rename (resample_1D_mean (loc_pm25 msk df))"

text \<open>The two frames before the forward fill, and after it.\<close>

definition resampled :: "reading list \<Rightarrow> py_error + (frame \<times> frame)" where
  "resampled rows =
     (case set_index rows of
        Inl e \<Rightarrow> Inl e
      | Inr df \<Rightarrow> Inr (daily_frame train_mask df, daily_frame test_mask df))"

definition prepare :: "reading list \<Rightarrow> py_error + (frame \<times> frame)" where
  "prepare rows =
     (case resampled rows of
        Inl e \<Rightarrow> Inl e
      | Inr (train, test) \<Rightarrow> Inr (fillna_ffill train, fillna_ffill test))"

text \<open>The calendar days on which a series has a timestamp.\<close>

definition series_days :: "(timestamp \<times> rat option) list \<Rightarrow> day set" where
  "series_days s = (\<lambda>(t, v). floor_day t) ` set s"

text \<open>
  The full date range of the dataset: the daily bins that the same resampling gives on
  the undivided PM2.5 series, from the day of the first record to the day of the last.
\<close>

definition full_range :: "(timestamp \<times> reading) list \<Rightarrow> day list" where
  "full_range df = map ds (daily_frame (\<lambda>r. True) df)"

subsection \<open>The forecasting library (cells 11 and 12)\<close>

text \<open>
  What the notebook uses of the forecasting library, written after the library's
  Python source. The fitted model is kept as the dates it was trained on and the
  function from a date to its estimate \<open>(yhat_lower, yhat_upper, yhat)\<close>; what the
  optimiser makes of a training frame is the parameter \<open>opt\<close>.

  \<open>Prophet().fit(df)\<close> raises ValueError when fewer than two rows have a value, and
  keeps the dates of all rows, sorted, as \<open>history_dates\<close>.
\<close>

type_synonym estimate = "rat \<times> rat \<times> rat"

record prophet =
  history_dates :: "day list"
  forecaster :: "day \<Rightarrow> estimate"

definition fit :: "(frame \<Rightarrow> day \<Rightarrow> estimate) \<Rightarrow> frame \<Rightarrow> py_error + prophet" where
  "fit opt df =
     (if length (filter (\<lambda>r. y r \<noteq> None) df) < 2 then Inl ValueError
      else Inr \<lparr>history_dates = sort (map ds df), forecaster = opt df\<rparr>)"

text \<open>\<open>pd.date_range(start=s, periods=n, freq='D')\<close>\<close>

definition date_range_periods :: "day \<Rightarrow> nat \<Rightarrow> day list" where
  "date_range_periods s n = map (\<lambda>i. s + int i) [0..<n]"

text \<open>
  \<open>make_future_dataframe(periods, include_history)\<close>: one date more than asked for is
  generated from the last training date on, the dates not after the last training date
  are dropped, and the first \<open>periods\<close> of the rest are kept. A model without dates has
  not been fitted.
\<close>

definition make_future_dataframe :: "prophet \<Rightarrow> nat \<Rightarrow> bool \<Rightarrow> py_error + day list" where
  "make_future_dataframe m periods include_history =
     (case history_dates m of
        [] \<Rightarrow> Inl (LibraryError ''Model has not been fit.'')
      | h # hs \<Rightarrow>
          let last_date = fold max hs h;
              dates = date_range_periods last_date (periods + 1);
              dates = filter (\<lambda>d. d > last_date) dates;
              dates = take periods dates
          in Inr (if include_history then history_dates m @ dates else dates))"

text \<open>
  \<open>predict(df)\<close> raises ValueError on a frame without rows; the forecast has one row
  per date of the frame, sorted by date.
\<close>

record forecast_row =
  fc_ds :: day
  yhat_lower :: rat
  yhat_upper :: rat
  yhat :: rat

definition predict :: "prophet \<Rightarrow> day list \<Rightarrow> py_error + forecast_row list" where
  "predict m future =
     (if future = [] then Inl ValueError
      else Inr (map (\<lambda>d. case forecaster m d of (lo, hi, mid) \<Rightarrow>
                  \<lparr>fc_ds = d, yhat_lower = lo, yhat_upper = hi, yhat = mid\<rparr>) (sort future)))"

text \<open>
  Cells 10 to 12 in sequence: prepare the frames, fit on the train frame, forecast as
  many days as the test frame has rows (\<open>periods=test.shape[0]\<close>), without the history.
\<close>

definition local_forecast ::
  "(frame \<Rightarrow> day \<Rightarrow> estimate) \<Rightarrow> reading list \<Rightarrow> py_error + (frame \<times> frame \<times> forecast_row list)" where
  "local_forecast opt rows =
     (case prepare rows of
        Inl e \<Rightarrow> Inl e
      | Inr (train, test) \<Rightarrow>
          (case fit opt train of
             Inl e \<Rightarrow> Inl e
           | Inr m \<Rightarrow>
               (case make_future_dataframe m (length test) False of
                  Inl e \<Rightarrow> Inl e
                | Inr future \<Rightarrow>
                    (case predict m future of
                       Inl e \<Rightarrow> Inl e
                     | Inr forecast \<Rightarrow> Inr (train, test, forecast)))))"

subsection \<open>Training job and tuner configuration (cells 17, 29 and 30)\<close>

text \<open>
  The \<open>hyperparameters\<close> argument of the estimator of the managed training job, the
  estimator of the tuning jobs (constructed without a \<open>hyperparameters\<close> argument) and
  the search ranges handed to the tuner, as the notebook writes them.
\<close>

definition prophet_estimator_hyperparameters :: "(string \<times> rat) list" where
  "prophet_estimator_hyperparameters =
     [(''changepoint_prior_scale'', 5 / 1000), (''prediction_periods'', 425)]"




subsection \<open>Prediction requests and the serving script (cells 22, 23 and 35)\<close>

text \<open>
  The request the notebook sends, both to the first endpoint and to the endpoint of the
  best tuning job: \<open>predictor.predict({"start": "1-1-2016", "end": "2-28-2017"})\<close>.
\<close>

type_synonym request = "(string \<times> string) list"

definition prediction_request :: request where
  "prediction_request = [(''start'', ''1-1-2016''), (''end'', ''2-28-2017'')]"

text \<open>
  Modelled from the spec: the reading of a date string by the serving script, which is
  not under src/. The dates of the notebook are written month, day, year, separated by
  \<open>-\<close> (in its explanatory text by \<open>/\<close>); a string of another shape, or one whose
  fields are no calendar date, is no date.
\<close>

fun split_on :: "char \<Rightarrow> string \<Rightarrow> string list" where
  "split_on c [] = [[]]"
| "split_on c (x # xs) =
     (if x = c then [] # split_on c xs
      else (case split_on c xs of [] \<Rightarrow> [[x]] | f # fs \<Rightarrow> (x # f) # fs))"

definition digit_value :: "char \<Rightarrow> int option" where
  "digit_value c = map_of (zip ''0123456789'' [0, 1, 2, 3, 4, 5, 6, 7, 8, 9]) c"

fun digits_value :: "int \<Rightarrow> string \<Rightarrow> int option" where
  "digits_value acc [] = Some acc"
| "digits_value acc (c # cs) =
     (case digit_value c of None \<Rightarrow> None | Some v \<Rightarrow> digits_value (10 * acc + v) cs)"

definition parse_int :: "string \<Rightarrow> int option" where
  "parse_int s = (if s = [] then None else digits_value 0 s)"

definition parse_date :: "string \<Rightarrow> day option" where
  "parse_date s =
     (case map parse_int (split_on (if CHR ''/'' \<in> set s then CHR ''/'' else CHR ''-'') s) of
        [Some mo, Some dy, Some yr] \<Rightarrow>
          if check_date_fields yr mo dy then Some (ymd2ord yr mo dy) else None
      | _ \<Rightarrow> None)"

text \<open>\<open>pd.date_range(start, end)\<close>: the days from start to end, both included.\<close>

definition date_range :: "day \<Rightarrow> day \<Rightarrow> day list" where
  "date_range s e = [s..e]"

text \<open>
  Modelled from the spec: the values of a response object of serve.py (not under src/),
  a date or a number.
\<close>

datatype jvalue = JDate day | JNumber rat

type_synonym jobject = "(string \<times> jvalue) list"

text \<open>
  Modelled from the spec: serve.py, the serving script behind the endpoint, which is not
  under src/. The spec describes it as a thin adapter that takes a request of shape
  \<open>{"start": <date>, "end": <date>}\<close>, expands the date range, calls the forecasting
  library's predict and returns a list of objects
  \<open>{"ds": <date>, "yhat_lower": <number>, "yhat_upper": <number>, "yhat": <number>}\<close>,
  one for each date that falls within the start-end period. A request without one of
  the two keys raises KeyError, a value that is no date ValueError; an error of predict
  is passed on. \<open>output_fn\<close> writes one row of the forecast as a response object.
\<close>

definition output_fn :: "forecast_row \<Rightarrow> jobject" where
  "output_fn r =
     [(''ds'', JDate (fc_ds r)),
      (''yhat_lower'', JNumber (yhat_lower r)),
      (''yhat_upper'', JNumber (yhat_upper r)),
      (''yhat'', JNumber (yhat r))]"

definition serve :: "prophet \<Rightarrow> request \<Rightarrow> py_error + jobject list" where
  "serve m req =
     (case (map_of req ''start'', map_of req ''end'') of
        (Some a, Some b) \<Rightarrow>
          (case (parse_date a, parse_date b) of
             (Some s, Some e) \<Rightarrow>
               (case predict m (date_range s e) of
                  Inl err \<Rightarrow> Inl err
                | Inr forecast \<Rightarrow> Inr (map output_fn forecast))
           | _ \<Rightarrow> Inl ValueError)
      | _ \<Rightarrow> Inl KeyError)"

subsection \<open>The CSV text of a frame (cell 15)\<close>

text \<open>
  \<open>date.fromordinal(n)\<close>: the calendar date of a day number. The year is the one whose
  days include n, found by going up from a year that is not too late (no year has more
  than 366 days; for the dates of Python, up to the year 9999, thirty steps are enough);
  the month is the first one that ends on or after the day of the year.
\<close>

primrec find_year :: "nat \<Rightarrow> day \<Rightarrow> int \<Rightarrow> int" where
  "find_year 0 n yr = yr"
| "find_year (Suc k) n yr =
     (if n \<le> days_before_year (yr + 1) then yr else find_year k n (yr + 1))"

fun find_month :: "int \<Rightarrow> int \<Rightarrow> int list \<Rightarrow> int" where
  "find_month yr doy [] = 12"
| "find_month yr doy (mo # mos) =
     (if doy \<le> days_before_month yr mo + days_in_month yr mo then mo
      else find_month yr doy mos)"

definition ord2ymd :: "day \<Rightarrow> int \<times> int \<times> int" where
  "ord2ymd n =
     (let yr = find_year 30 n ((n - 1) div 366 + 1);
          doy = n - days_before_year yr;
          mo = find_month yr doy [1, 2, 3, 4, 5, 6, 7, 8, 9, 10, 11]
      in (yr, mo, doy - days_before_month yr mo))"

text \<open>A date is written as \<open>YYYY-MM-DD\<close>, the fields padded with zeros.\<close>

definition digit_char :: "int \<Rightarrow> char" where
  "digit_char k = ''0123456789'' ! nat k"

definition two_digits :: "int \<Rightarrow> string" where
  "two_digits k = [digit_char (k div 10 mod 10), digit_char (k mod 10)]"

definition four_digits :: "int \<Rightarrow> string" where
  "four_digits k =
     [digit_char (k div 10 div 10 div 10 mod 10), digit_char (k div 10 div 10 mod 10),
      digit_char (k div 10 mod 10), digit_char (k mod 10)]"

definition isoformat :: "day \<Rightarrow> string" where
  "isoformat n =
     (case ord2ymd n of (yr, mo, dy) \<Rightarrow>
        four_digits yr @ ''-'' @ two_digits mo @ ''-'' @ two_digits dy)"
















subsection \<open>The notebook as a sequence of library calls\<close>

text \<open>
  The code cells, top to bottom, as one script. Python is dynamically typed: the values
  that pass between the calls are modelled by one type, with the literals the notebook
  writes (strings, numbers, lists, dictionaries of keyword arguments, its one lambda,
  the names it imports) and, as \<open>VObj\<close>, the objects that only the libraries look into.
\<close>

datatype 'o pyval =
    VObj 'o
  | VStr string
  | VInt int
  | VNum rat
  | VBool bool
  | VNone
  | VName string
  | VLambda string
  | VList "'o pyval list"
  | VTuple "'o pyval list"
  | VDict "(string \<times> 'o pyval) list"








text \<open>
  The cells. A shell escape is a call of the interpreter's \<open>system\<close>, an import
  statement a call of \<open>import\<close>; reading an attribute, subscripting and assigning to
  an attribute or an item are calls too (\<open>getattr\<close>, \<open>getitem\<close>, \<open>setattr\<close>,
  \<open>setitem\<close>), a method call has the object as its first argument, and keyword
  arguments are passed as a dictionary. The calls of a statement are in the order in
  which Python evaluates them. The lambda of cell 7 is passed to \<open>apply\<close> as it is
  written; it is pandas that calls it, and an exception of \<open>datetime\<close> in it reaches
  the notebook as the exception of \<open>apply\<close>. The \<open>%%capture\<close> lines of cells 1, 17
  and 21 are taken as what they are written for, the hiding of output.
\<close>































section \<open>Proofs\<close>

subsection \<open>Calendar arithmetic\<close>

lemma div_step:
  fixes k n :: int
  assumes "0 < k"
  shows "n div k = (n - 1) div k + (if n mod k = 0 then 1 else 0)"
proof -
  define q where "q = (n - 1) div k"
  define r where "r = (n - 1) mod k"
  have r: "0 \<le> r" "r < k" using assms by (simp_all add: r_def)
  have n: "n = k * q + (r + 1)" by (simp add: q_def r_def)
  have dv: "n div k = q + (r + 1) div k" using assms by (simp add: n)
  have md: "n mod k = (r + 1) mod k" by (simp add: n)
  show ?thesis
  proof (cases "r + 1 = k")
    case True
    then show ?thesis using assms by (simp add: dv md q_def)
  next
    case False
    with r have lt: "r + 1 < k" by simp
    have "(r + 1) div k = 0" "(r + 1) mod k = r + 1"
      using r lt by (simp_all add: div_pos_pos_trivial mod_pos_pos_trivial)
    then show ?thesis using r by (simp add: dv md q_def)
  qed
qed

lemma mod_100_4: "(n::int) mod 100 = 0 \<Longrightarrow> n mod 4 = 0"
proof -
  assume "n mod 100 = 0"
  then have "100 dvd n" by (simp add: mod_eq_0_iff_dvd)
  moreover have "(4::int) dvd 100" by simp
  ultimately have "4 dvd n" by (rule dvd_trans [rotated])
  then show ?thesis by (simp add: mod_eq_0_iff_dvd)
qed

lemma mod_400_100: "(n::int) mod 400 = 0 \<Longrightarrow> n mod 100 = 0"
proof -
  assume "n mod 400 = 0"
  then have "400 dvd n" by (simp add: mod_eq_0_iff_dvd)
  moreover have "(100::int) dvd 400" by simp
  ultimately have "100 dvd n" by (rule dvd_trans [rotated])
  then show ?thesis by (simp add: mod_eq_0_iff_dvd)
qed

lemma days_before_year_step:
  "days_before_year (yr + 1) = days_before_year yr + (if is_leap yr then 366 else 365)"
proof -
  define a where "a \<longleftrightarrow> yr mod 4 = 0"
  define b where "b \<longleftrightarrow> yr mod 100 = 0"
  define c where "c \<longleftrightarrow> yr mod 400 = 0"
  have ba: "b \<Longrightarrow> a" unfolding a_def b_def by (rule mod_100_4)
  have cb: "c \<Longrightarrow> b" unfolding b_def c_def by (rule mod_400_100)
  have leap: "is_leap yr \<longleftrightarrow> a \<and> (\<not> b \<or> c)"
    unfolding a_def b_def c_def is_leap_def ..
  have d4: "yr div 4 = (yr - 1) div 4 + (if a then 1 else 0)"
    unfolding a_def by (rule div_step) simp
  have d100: "yr div 100 = (yr - 1) div 100 + (if b then 1 else 0)"
    unfolding b_def by (rule div_step) simp
  have d400: "yr div 400 = (yr - 1) div 400 + (if c then 1 else 0)"
    unfolding c_def by (rule div_step) simp
  have "days_before_year (yr + 1) = yr * 365 + yr div 4 - yr div 100 + yr div 400"
    by (simp add: days_before_year_def)
  also have "\<dots> = days_before_year yr + 365
      + (if a then 1 else 0) - (if b then 1 else 0) + (if c then 1 else 0)"
    unfolding d4 d100 d400 by (simp add: days_before_year_def Let_def algebra_simps)
  also have "\<dots> = days_before_year yr + (if is_leap yr then 366 else 365)"
    unfolding leap using ba cb by (cases a; cases b; cases c; simp)
  finally show ?thesis .
qed

lemma days_before_year_mono_nat: "days_before_year a \<le> days_before_year (a + int n)"
proof (induction n)
  case 0 show ?case by simp
next
  case (Suc n)
  have "days_before_year (a + int n) \<le> days_before_year ((a + int n) + 1)"
    unfolding days_before_year_step by simp
  also have "a + int n + 1 = a + int (Suc n)" by simp
  finally show ?case using Suc by simp
qed

lemma days_before_year_mono: "a \<le> b \<Longrightarrow> days_before_year a \<le> days_before_year b"
  using days_before_year_mono_nat [of a "nat (b - a)"] by simp

lemma month_cases:
  "1 \<le> (mo::int) \<Longrightarrow> mo \<le> 12 \<Longrightarrow>
   mo = 1 \<or> mo = 2 \<or> mo = 3 \<or> mo = 4 \<or> mo = 5 \<or> mo = 6 \<or> mo = 7 \<or> mo = 8 \<or> mo = 9 \<or> mo = 10 \<or> mo = 11 \<or> mo = 12"
  by arith

lemma day_of_year_bounds:
  assumes "check_date_fields yr mo dy"
  shows "1 \<le> days_before_month yr mo + dy"
    and "days_before_month yr mo + dy \<le> (if is_leap yr then 366 else 365)"
proof -
  from assms have m: "1 \<le> mo" "mo \<le> 12" and d: "1 \<le> dy" "dy \<le> days_in_month yr mo"
    by (simp_all add: check_date_fields_def)
  from month_cases [OF m] d show "1 \<le> days_before_month yr mo + dy"
    by (elim disjE) (simp_all add: days_before_month_def)
  from month_cases [OF m] d
  show "days_before_month yr mo + dy \<le> (if is_leap yr then 366 else 365)"
    by (elim disjE) (simp_all add: days_before_month_def days_in_month_def split: if_splits)
qed

lemma ymd2ord_bounds:
  assumes "check_date_fields yr mo dy"
  shows "days_before_year yr < ymd2ord yr mo dy" and "ymd2ord yr mo dy \<le> days_before_year (yr + 1)"
  using day_of_year_bounds [OF assms]
  by (simp_all add: ymd2ord_def days_before_year_step)

lemma days_before_2016: "days_before_year 2016 = 735963"
  by (simp add: days_before_year_def)

lemma ymd2ord_before_2016:
  assumes "check_date_fields yr mo dy" "yr < 2016"
  shows "ymd2ord yr mo dy \<le> 735963"
proof -
  have "ymd2ord yr mo dy \<le> days_before_year (yr + 1)" by (rule ymd2ord_bounds [OF assms(1)])
  also have "\<dots> \<le> days_before_year 2016" using assms(2) by (intro days_before_year_mono) simp
  finally show ?thesis by (simp add: days_before_2016)
qed

lemma ymd2ord_from_2016:
  assumes "check_date_fields yr mo dy" "2016 \<le> yr"
  shows "735964 \<le> ymd2ord yr mo dy"
proof -
  have "days_before_year 2016 \<le> days_before_year yr" using assms(2) by (rule days_before_year_mono)
  also have "\<dots> < ymd2ord yr mo dy" by (rule ymd2ord_bounds [OF assms(1)])
  finally show ?thesis by (simp add: days_before_2016)
qed

lemma floor_day_datetime:
  "datetime yr mo dy hr = Inr t \<Longrightarrow> floor_day t = ymd2ord yr mo dy \<and> check_date_fields yr mo dy"
  by (auto simp: datetime_def floor_day_def split: if_splits)

lemma set_index_Inr:
  "set_index rows = Inr df \<Longrightarrow>
   map snd df = rows \<and>
   (\<forall>(t, r) \<in> set df. datetime (year r) (month r) (day r) (hour r) = Inr t)"
  by (induction rows arbitrary: df) (auto split: sum.splits)

subsection \<open>Resampling and forward fill\<close>

lemma fold_min_hd_tl: "xs \<noteq> [] \<Longrightarrow> fold min (tl xs) (hd xs) = Min (set xs)"
  using Min.set_eq_fold [of "hd xs" "tl xs"] by (cases xs) simp_all

lemma fold_max_hd_tl: "xs \<noteq> [] \<Longrightarrow> fold max (tl xs) (hd xs) = Max (set xs)"
  using Max.set_eq_fold [of "hd xs" "tl xs"] by (cases xs) simp_all

lemma map_fst_resample:
  "map fst (resample_1D_mean s) =
     (if s = [] then [] else [Min (series_days s)..Max (series_days s)])"
proof (cases "s = []")
  case True
  then show ?thesis by (simp add: resample_1D_mean_def)
next
  case False
  let ?days = "map (\<lambda>(t, v). floor_day t) s"
  have ne: "?days \<noteq> []" using False by simp
  have st: "set ?days = series_days s"
    by (simp add: series_days_def)
  have lo: "fold min (tl ?days) (hd ?days) = Min (series_days s)"
    using fold_min_hd_tl [OF ne] by (simp only: st)
  have hi: "fold max (tl ?days) (hd ?days) = Max (series_days s)"
    using fold_max_hd_tl [OF ne] by (simp only: st)
  show ?thesis
    using False by (simp add: resample_1D_mean_def Let_def lo hi comp_def)
qed

lemma ds_daily_frame:
  "map ds (daily_frame msk df) =
     (let s = loc_pm25 msk df in
      if s = [] then [] else [Min (series_days s)..Max (series_days s)])"
proof -
  have "map ds (reset_index_rename xs) = map fst xs" for xs
    by (simp add: reset_index_rename_def split_def comp_def)
  then show ?thesis by (simp add: daily_frame_def map_fst_resample Let_def)
qed

lemma ds_ffill_from: "map ds (ffill_from prev f) = map ds f"
  by (induction f arbitrary: prev) (auto split: option.splits)

lemma ds_fillna_ffill: "map ds (fillna_ffill f) = map ds f"
  by (simp add: fillna_ffill_def ds_ffill_from)

lemma sorted_ds_daily_frame: "sorted_wrt (<) (map ds (daily_frame msk df))"
  by (simp add: ds_daily_frame Let_def)

lemma prepare_Inr:
  "prepare rows = Inr (train, test) \<Longrightarrow>
   \<exists>df. set_index rows = Inr df \<and> train = fillna_ffill (daily_frame train_mask df)
      \<and> test = fillna_ffill (daily_frame test_mask df)"
  by (auto simp: prepare_def resampled_def split: sum.splits)

lemma ffill_from_Some: "r \<in> set (ffill_from (Some v) f) \<Longrightarrow> y r \<noteq> None"
  by (induction f arbitrary: v) (auto split: option.splits)

lemma finite_series_days: "finite (series_days s)"
  by (simp add: series_days_def)

lemma series_days_empty: "series_days s = {} \<longleftrightarrow> s = []"
  by (simp add: series_days_def)

lemma set_ds_daily_frame:
  "set (map ds (daily_frame msk df)) =
     (let S = series_days (loc_pm25 msk df) in if S = {} then {} else {Min S..Max S})"
  by (simp add: ds_daily_frame Let_def series_days_empty)

lemma series_days_loc:
  "series_days (loc_pm25 msk df) = (\<lambda>x. floor_day (fst x)) ` {x \<in> set df. msk (snd x)}"
proof -
  have "series_days (loc_pm25 msk df)
      = (\<lambda>x. floor_day (fst x)) ` (\<lambda>x. (fst x, pm25 (snd x))) ` {x \<in> set df. msk (snd x)}"
    by (simp add: series_days_def loc_pm25_def split_def)
  also have "\<dots> = (\<lambda>x. floor_day (fst x)) ` {x \<in> set df. msk (snd x)}"
    by (simp add: image_image)
  finally show ?thesis .
qed

lemma indexed_day:
  assumes "set_index rows = Inr df" "(t, r) \<in> set df"
  shows "floor_day t = ymd2ord (year r) (month r) (day r)"
    and "check_date_fields (year r) (month r) (day r)"
proof -
  from set_index_Inr [OF assms(1)] assms(2)
  have "datetime (year r) (month r) (day r) (hour r) = Inr t" by auto
  from floor_day_datetime [OF this]
  show "floor_day t = ymd2ord (year r) (month r) (day r)"
    and "check_date_fields (year r) (month r) (day r)" by simp_all
qed

lemma train_days_le:
  assumes "set_index rows = Inr df" "d \<in> series_days (loc_pm25 train_mask df)"
  shows "d \<le> 735963"
proof -
  from assms(2) obtain t r where tr: "(t, r) \<in> set df" "train_mask r" "d = floor_day t"
    by (auto simp: series_days_loc)
  from indexed_day [OF assms(1) tr(1)] tr(2,3) show ?thesis
    by (simp add: train_mask_def ymd2ord_before_2016)
qed

lemma test_days_ge:
  assumes "set_index rows = Inr df" "d \<in> series_days (loc_pm25 test_mask df)"
  shows "735964 \<le> d"
proof -
  from assms(2) obtain t r where tr: "(t, r) \<in> set df" "test_mask r" "d = floor_day t"
    by (auto simp: series_days_loc)
  from indexed_day [OF assms(1) tr(1)] tr(2,3) show ?thesis
    by (simp add: test_mask_def ymd2ord_from_2016)
qed

lemma all_days_split:
  "series_days (loc_pm25 (\<lambda>r. True) df) =
     series_days (loc_pm25 train_mask df) \<union> series_days (loc_pm25 test_mask df)"
  by (auto simp: series_days_loc train_mask_def test_mask_def image_iff split: prod.splits)
     (metis linorder_not_less)+

lemma interval_union_iff:
  fixes a b c d :: int
  assumes "a \<le> b" "b < c" "c \<le> d"
  shows "{a..b} \<union> {c..d} = {a..d} \<longleftrightarrow> b + 1 = c"
proof
  assume eq: "{a..b} \<union> {c..d} = {a..d}"
  have "b + 1 \<in> {a..d}" using assms by simp
  with eq have "b + 1 \<in> {a..b} \<union> {c..d}" by simp
  then have "c \<le> b + 1" by simp
  with assms show "b + 1 = c" by simp
next
  assume "b + 1 = c"
  with assms show "{a..b} \<union> {c..d} = {a..d}" by auto
qed

lemma Min_Max_union_sep:
  fixes A B :: "int set"
  assumes "finite A" "finite B" "A \<noteq> {}" "B \<noteq> {}" "\<And>x y. x \<in> A \<Longrightarrow> y \<in> B \<Longrightarrow> x < y"
  shows "Min (A \<union> B) = Min A" and "Max (A \<union> B) = Max B"
proof -
  have "Min A \<in> A" "Min B \<in> B" "Max A \<in> A" "Max B \<in> B"
    using assms(1-4) by (simp_all add: Min_in Max_in)
  then have lt: "Min A < Min B" "Max A < Max B" using assms(5) by blast+
  have "Min (A \<union> B) = min (Min A) (Min B)"
    using assms(1-4) by (intro Min_Un)
  with lt show "Min (A \<union> B) = Min A" by simp
  have "Max (A \<union> B) = max (Max A) (Max B)"
    using assms(1-4) by (intro Max_Un)
  with lt show "Max (A \<union> B) = Max B" by simp
qed

lemma ffill_first:
  assumes "f \<noteq> []"
  shows "(y (hd f) \<noteq> None \<longrightarrow> (\<forall>r \<in> set (fillna_ffill f). y r \<noteq> None))"
    and "(y (hd f) = None \<longrightarrow> y (hd (fillna_ffill f)) = None)"
proof -
  from assms obtain r rs where f: "f = r # rs" by (cases f) auto
  show "(y (hd f) \<noteq> None \<longrightarrow> (\<forall>r \<in> set (fillna_ffill f). y r \<noteq> None))"
    using ffill_from_Some [of _ _ rs] by (auto simp: f fillna_ffill_def)
  show "(y (hd f) = None \<longrightarrow> y (hd (fillna_ffill f)) = None)"
    by (simp add: f fillna_ffill_def)
qed

subsection \<open>Forecasting library and serving script\<close>

lemma fold_max_Cons: "fold max hs (h::int) = Max (set (h # hs))"
  using Max.set_eq_fold [of h hs] by simp

lemma future_dates:
  "filter (\<lambda>d. d > a) (date_range_periods a (Suc n)) = map (\<lambda>i. a + 1 + int i) [0..<n]"
proof -
  have "[0..<Suc n] = 0 # map Suc [0..<n]"
    by (simp add: upt_conv_Cons map_Suc_upt del: upt_Suc)
  then have "date_range_periods a (Suc n) = a # map (\<lambda>i. a + 1 + int i) [0..<n]"
    by (simp add: date_range_periods_def comp_def add.assoc del: upt_Suc)
  then show ?thesis by (simp add: filter_map comp_def)
qed

lemma make_future_no_history:
  assumes "history_dates m \<noteq> []"
  shows "make_future_dataframe m n False
       = Inr (map (\<lambda>i. Max (set (history_dates m)) + 1 + int i) [0..<n])"
proof -
  from assms obtain h hs where hd: "history_dates m = h # hs" by (cases "history_dates m") auto
  show ?thesis
    unfolding make_future_dataframe_def hd Let_def
    by (simp add: fold_max_Cons future_dates del: upt_Suc set_simps)
qed

lemma sorted_future: "sorted (map (\<lambda>i. (a::int) + 1 + int i) [0..<n])"
  by (simp add: sorted_map sorted_wrt_iff_nth_less)

lemma local_forecast_dates:
  assumes "local_forecast opt rows = Inr (train, test, forecast)"
  shows "train \<noteq> []" 
    and "map fc_ds forecast = map (\<lambda>i. Max (set (map ds train)) + 1 + int i) [0..<length test]"
proof -
  from assms obtain m future where pr: "prepare rows = Inr (train, test)"
    and ft: "fit opt train = Inr m"
    and mf: "make_future_dataframe m (length test) False = Inr future"
    and pd: "predict m future = Inr forecast"
    by (auto simp: local_forecast_def split: sum.splits prod.splits)
  from ft have hm: "history_dates m = sort (map ds train)" and ne: "train \<noteq> []"
    by (auto simp: fit_def split: if_splits)
  then have hne: "history_dates m \<noteq> []" by (metis length_sort length_map length_0_conv)
  show "train \<noteq> []" by (rule ne)
  from mf make_future_no_history [OF hne, of "length test"]
  have fu: "future = map (\<lambda>i. Max (set (map ds train)) + 1 + int i) [0..<length test]"
    by (simp add: hm del: set_map)
  from pd have "map fc_ds forecast = sort future"
    by (auto simp: predict_def comp_def split_def split: if_splits)
  also have "\<dots> = future" unfolding fu by (rule sort_key_id_if_sorted) (simp add: sorted_future)
  finally show "map fc_ds forecast = map (\<lambda>i. Max (set (map ds train)) + 1 + int i) [0..<length test]"
    by (simp only: fu)
qed

lemma predict_date_range:
  assumes "s \<le> e"
  shows "predict m (date_range s e)
       = Inr (map (\<lambda>d. case forecaster m d of (lo, hi, mid) \<Rightarrow>
                \<lparr>fc_ds = d, yhat_lower = lo, yhat_upper = hi, yhat = mid\<rparr>) [s..e])"
proof -
  have ne: "[s..e] \<noteq> []" using assms by (simp add: upto_Nil)
  have "sort [s..e] = [s..e]" by (rule sort_key_id_if_sorted) simp
  with ne show ?thesis by (simp add: predict_def date_range_def)
qed

lemma serve_Inr:
  assumes "map_of req ''start'' = Some a" "map_of req ''end'' = Some b"
    and "parse_date a = Some s" "parse_date b = Some e" "s \<le> e"
  shows "serve m req
       = Inr (map (\<lambda>d. case forecaster m d of (lo, hi, mid) \<Rightarrow>
                [(''ds'', JDate d), (''yhat_lower'', JNumber lo),
                 (''yhat_upper'', JNumber hi), (''yhat'', JNumber mid)]) [s..e])"
  using assms(1-4) predict_date_range [OF assms(5), of m]
  by (simp add: serve_def output_fn_def comp_def split_def)


lemma request_dates:
  "parse_date ''1-1-2016'' = Some 735964" "parse_date ''2-28-2017'' = Some 736388"
  by code_simp+

subsection \<open>CSV text\<close>
























lemma isoformat_nonempty: "isoformat n \<noteq> []"
  by (cases "ord2ymd n") (simp add: isoformat_def four_digits_def)








subsection \<open>Runs of the notebook\<close>

































section \<open>The claims\<close>

subsection \<open>C1: the split by year\<close>

text \<open>
  C1, as stated: every hourly record goes to exactly one of the two frames, so after the
  daily resampling the train and test dates are disjoint and together they are the full
  date range of the dataset, with no day left out.

  The last part fails when the records leave a gap at the turn of the year. With one
  record on 2015-12-30 and one on 2016-01-02 the train frame holds the single day
  2015-12-30 (ordinal 735962) and the test frame the single day 2016-01-02 (735965),
  while the range of the dataset has four days: each part is resampled on its own, from
  its own first day to its own last day, and 2015-12-31 and 2016-01-01 are in neither.
\<close>

theorem split_covers_full_range_counterexample:
  "set_index
     [\<lparr>year = 2015, month = 12, day = 30, hour = 0, pm25 = Some 1\<rparr>,
      \<lparr>year = 2016, month = 1, day = 2, hour = 0, pm25 = Some 1\<rparr>]
   = Inr
     [(17663088, \<lparr>year = 2015, month = 12, day = 30, hour = 0, pm25 = Some 1\<rparr>),
      (17663160, \<lparr>year = 2016, month = 1, day = 2, hour = 0, pm25 = Some 1\<rparr>)]
   \<and> prepare
     [\<lparr>year = 2015, month = 12, day = 30, hour = 0, pm25 = Some 1\<rparr>,
      \<lparr>year = 2016, month = 1, day = 2, hour = 0, pm25 = Some 1\<rparr>]
   = Inr ([\<lparr>ds = 735962, y = Some 1\<rparr>], [\<lparr>ds = 735965, y = Some 1\<rparr>])
   \<and> full_range
     [(17663088, \<lparr>year = 2015, month = 12, day = 30, hour = 0, pm25 = Some 1\<rparr>),
      (17663160, \<lparr>year = 2016, month = 1, day = 2, hour = 0, pm25 = Some 1\<rparr>)]
   = [735962, 735963, 735964, 735965]
   \<and> set (map ds [\<lparr>ds = 735962, y = Some 1\<rparr>]) \<union> set (map ds [\<lparr>ds = 735965, y = Some 1\<rparr>])
     \<noteq> set [735962, 735963, 735964, 735965 :: int]"
proof -
  have "set_index
     [\<lparr>year = 2015, month = 12, day = 30, hour = 0, pm25 = Some 1\<rparr>,
      \<lparr>year = 2016, month = 1, day = 2, hour = 0, pm25 = Some 1\<rparr>]
   = Inr
     [(17663088, \<lparr>year = 2015, month = 12, day = 30, hour = 0, pm25 = Some 1\<rparr>),
      (17663160, \<lparr>year = 2016, month = 1, day = 2, hour = 0, pm25 = Some 1\<rparr>)]"
    by code_simp
  moreover have "prepare
     [\<lparr>year = 2015, month = 12, day = 30, hour = 0, pm25 = Some 1\<rparr>,
      \<lparr>year = 2016, month = 1, day = 2, hour = 0, pm25 = Some 1\<rparr>]
   = Inr ([\<lparr>ds = 735962, y = Some 1\<rparr>], [\<lparr>ds = 735965, y = Some 1\<rparr>])"
    by code_simp
  moreover have "full_range
     [(17663088, \<lparr>year = 2015, month = 12, day = 30, hour = 0, pm25 = Some 1\<rparr>),
      (17663160, \<lparr>year = 2016, month = 1, day = 2, hour = 0, pm25 = Some 1\<rparr>)]
   = [735962, 735963, 735964, 735965]"
    by code_simp
  moreover have "set (map ds [\<lparr>ds = 735962, y = Some 1\<rparr>]) \<union> set (map ds [\<lparr>ds = 735965, y = Some 1\<rparr>])
     \<noteq> set [735962, 735963, 735964, 735965 :: int]"
  proof -
    have "(735963 :: int) \<in> set [735962, 735963, 735964, 735965]" by simp
    moreover have "(735963 :: int) \<notin> set (map ds [\<lparr>ds = 735962, y = Some 1\<rparr>])
        \<union> set (map ds [\<lparr>ds = 735965, y = Some 1\<rparr>])" by simp
    ultimately show ?thesis by blast
  qed
  ultimately show ?thesis by (intro conjI)
qed

text \<open>
  C1, amended: every record passes exactly one of the two year tests; the train and test
  dates are disjoint; every day that has a record is a train or a test date; and the two
  date sets together are the full date range of the dataset exactly when one of the
  frames is empty or the dataset has a record on 2015-12-31 and a record on 2016-01-01
  (which puts these two days into the train and the test frame).
\<close>

theorem split_dates:
  assumes ix: "set_index rows = Inr df" and pr: "prepare rows = Inr (train, test)"
  shows "(\<forall>r \<in> set rows. train_mask r \<noteq> test_mask r)
       \<and> set (map ds train) \<inter> set (map ds test) = {}
       \<and> (\<forall>(t, r) \<in> set df. floor_day t \<in> set (map ds train) \<union> set (map ds test))
       \<and> (set (map ds train) \<union> set (map ds test) = set (full_range df) \<longleftrightarrow>
            train = [] \<or> test = [] \<or>
            (ymd2ord 2015 12 31 \<in> set (map ds train) \<and> ymd2ord 2016 1 1 \<in> set (map ds test)))"
proof -
  define A where "A = series_days (loc_pm25 train_mask df)"
  define B where "B = series_days (loc_pm25 test_mask df)"
  define DA where "DA = set (map ds train)"
  define DB where "DB = set (map ds test)"
  from prepare_Inr [OF pr] ix
  have tr: "train = fillna_ffill (daily_frame train_mask df)"
    and te: "test = fillna_ffill (daily_frame test_mask df)" by auto
  have DA: "DA = (if A = {} then {} else {Min A..Max A})"
    by (simp add: DA_def tr ds_fillna_ffill set_ds_daily_frame A_def Let_def del: set_map)
  have DB: "DB = (if B = {} then {} else {Min B..Max B})"
    by (simp add: DB_def te ds_fillna_ffill set_ds_daily_frame B_def Let_def del: set_map)
  have full: "set (full_range df) = (if A \<union> B = {} then {} else {Min (A \<union> B)..Max (A \<union> B)})"
    by (simp add: full_range_def set_ds_daily_frame all_days_split A_def B_def Let_def del: set_map)
  have fin: "finite A" "finite B" by (simp_all add: A_def B_def finite_series_days)
  have Ale: "\<And>x. x \<in> A \<Longrightarrow> x \<le> 735963" unfolding A_def by (rule train_days_le [OF ix])
  have Bge: "\<And>x. x \<in> B \<Longrightarrow> 735964 \<le> x" unfolding B_def by (rule test_days_ge [OF ix])
  have sep: "\<And>x y. x \<in> A \<Longrightarrow> y \<in> B \<Longrightarrow> x < y" using Ale Bge by fastforce
  have mA: "A \<noteq> {} \<Longrightarrow> Min A \<le> Max A" using fin(1) by simp
  have mB: "B \<noteq> {} \<Longrightarrow> Min B \<le> Max B" using fin(2) by simp
  have trE: "train = [] \<longleftrightarrow> A = {}"
  proof -
    have "train = [] \<longleftrightarrow> DA = {}" by (simp add: DA_def)
    also have "\<dots> \<longleftrightarrow> A = {}" using mA by (simp add: DA)
    finally show ?thesis .
  qed
  have teE: "test = [] \<longleftrightarrow> B = {}"
  proof -
    have "test = [] \<longleftrightarrow> DB = {}" by (simp add: DB_def)
    also have "\<dots> \<longleftrightarrow> B = {}" using mB by (simp add: DB)
    finally show ?thesis .
  qed
  have AsubDA: "A \<subseteq> DA" using fin by (auto simp: DA)
  have BsubDB: "B \<subseteq> DB" using fin by (auto simp: DB)
  have DAle: "\<And>x. x \<in> DA \<Longrightarrow> x \<le> 735963"
    using Ale [OF Max_in [OF fin(1)]] by (auto simp: DA split: if_splits)
  have DBge: "\<And>x. x \<in> DB \<Longrightarrow> 735964 \<le> x"
    using Bge [OF Min_in [OF fin(2)]] by (auto simp: DB split: if_splits)
  have c1: "\<forall>r \<in> set rows. train_mask r \<noteq> test_mask r"
    by (auto simp: train_mask_def test_mask_def)
  have c2: "DA \<inter> DB = {}" using DAle DBge by fastforce
  have c3: "\<forall>(t, r) \<in> set df. floor_day t \<in> DA \<union> DB"
  proof (clarify)
    fix t r assume m: "(t, r) \<in> set df" and "floor_day t \<notin> DB"
    have "floor_day t \<in> A \<union> B"
      using m by (cases "train_mask r")
        (force simp: A_def B_def series_days_loc train_mask_def test_mask_def)+
    with AsubDA BsubDB \<open>floor_day t \<notin> DB\<close> show "floor_day t \<in> DA" by auto
  qed
  have c4: "DA \<union> DB = set (full_range df) \<longleftrightarrow>
            train = [] \<or> test = [] \<or> (ymd2ord 2015 12 31 \<in> DA \<and> ymd2ord 2016 1 1 \<in> DB)"
  proof (cases "A = {} \<or> B = {}")
    case True
    then show ?thesis using trE teE by (auto simp: DA DB full)
  next
    case False
    then have ne: "A \<noteq> {}" "B \<noteq> {}" by simp_all
    have mm: "Min (A \<union> B) = Min A" "Max (A \<union> B) = Max B"
      by (rule Min_Max_union_sep [OF fin ne sep]; assumption)+
    have o1: "Min A \<le> Max A" using fin ne by simp
    have o2: "Max A < Min B" using fin ne sep by (simp add: Max_in Min_in)
    have o3: "Min B \<le> Max B" using fin ne by simp
    have b1: "Max A \<le> 735963" using Ale [OF Max_in [OF fin(1) ne(1)]] .
    have b2: "735964 \<le> Min B" using Bge [OF Min_in [OF fin(2) ne(2)]] .
    have e1: "ymd2ord 2015 12 31 = 735963" "ymd2ord 2016 1 1 = 735964"
      by (simp_all add: ymd2ord_def days_before_year_def days_before_month_def is_leap_def)
    have "DA \<union> DB = set (full_range df) \<longleftrightarrow> Max A + 1 = Min B"
      using ne interval_union_iff [OF o1 o2 o3] by (simp add: DA DB full mm)
    also have "\<dots> \<longleftrightarrow> 735963 \<in> DA \<and> 735964 \<in> DB"
      using ne o1 o3 b1 b2 by (auto simp: DA DB)
    finally show ?thesis using ne trE teE by (simp add: e1)
  qed
  from c1 c2 c3 c4 show ?thesis unfolding DA_def DB_def by blast
qed

theorem split_dates_witness:
  "set_index
     [\<lparr>year = 2015, month = 12, day = 29, hour = 0, pm25 = Some 4\<rparr>,
      \<lparr>year = 2015, month = 12, day = 31, hour = 5, pm25 = Some 2\<rparr>,
      \<lparr>year = 2016, month = 1, day = 1, hour = 0, pm25 = None\<rparr>,
      \<lparr>year = 2016, month = 1, day = 2, hour = 3, pm25 = Some 3\<rparr>]
   = Inr
     [(17663064, \<lparr>year = 2015, month = 12, day = 29, hour = 0, pm25 = Some 4\<rparr>),
      (17663117, \<lparr>year = 2015, month = 12, day = 31, hour = 5, pm25 = Some 2\<rparr>),
      (17663136, \<lparr>year = 2016, month = 1, day = 1, hour = 0, pm25 = None\<rparr>),
      (17663163, \<lparr>year = 2016, month = 1, day = 2, hour = 3, pm25 = Some 3\<rparr>)]
   \<and> prepare
     [\<lparr>year = 2015, month = 12, day = 29, hour = 0, pm25 = Some 4\<rparr>,
      \<lparr>year = 2015, month = 12, day = 31, hour = 5, pm25 = Some 2\<rparr>,
      \<lparr>year = 2016, month = 1, day = 1, hour = 0, pm25 = None\<rparr>,
      \<lparr>year = 2016, month = 1, day = 2, hour = 3, pm25 = Some 3\<rparr>]
   = Inr ([\<lparr>ds = 735961, y = Some 4\<rparr>, \<lparr>ds = 735962, y = Some 4\<rparr>, \<lparr>ds = 735963, y = Some 2\<rparr>],
          [\<lparr>ds = 735964, y = None\<rparr>, \<lparr>ds = 735965, y = Some 3\<rparr>])
   \<and> set (map ds [\<lparr>ds = 735961, y = Some 4\<rparr>, \<lparr>ds = 735962, y = Some 4\<rparr>, \<lparr>ds = 735963, y = Some 2\<rparr>])
       \<inter> set (map ds [\<lparr>ds = 735964, y = None\<rparr>, \<lparr>ds = 735965, y = Some 3\<rparr>]) = {}
   \<and> set (map ds [\<lparr>ds = 735961, y = Some 4\<rparr>, \<lparr>ds = 735962, y = Some 4\<rparr>, \<lparr>ds = 735963, y = Some 2\<rparr>])
       \<union> set (map ds [\<lparr>ds = 735964, y = None\<rparr>, \<lparr>ds = 735965, y = Some 3\<rparr>])
     = set (full_range
     [(17663064, \<lparr>year = 2015, month = 12, day = 29, hour = 0, pm25 = Some 4\<rparr>),
      (17663117, \<lparr>year = 2015, month = 12, day = 31, hour = 5, pm25 = Some 2\<rparr>),
      (17663136, \<lparr>year = 2016, month = 1, day = 1, hour = 0, pm25 = None\<rparr>),
      (17663163, \<lparr>year = 2016, month = 1, day = 2, hour = 3, pm25 = Some 3\<rparr>)])"
proof -
  have ix: "set_index
     [\<lparr>year = 2015, month = 12, day = 29, hour = 0, pm25 = Some 4\<rparr>,
      \<lparr>year = 2015, month = 12, day = 31, hour = 5, pm25 = Some 2\<rparr>,
      \<lparr>year = 2016, month = 1, day = 1, hour = 0, pm25 = None\<rparr>,
      \<lparr>year = 2016, month = 1, day = 2, hour = 3, pm25 = Some 3\<rparr>]
   = Inr
     [(17663064, \<lparr>year = 2015, month = 12, day = 29, hour = 0, pm25 = Some 4\<rparr>),
      (17663117, \<lparr>year = 2015, month = 12, day = 31, hour = 5, pm25 = Some 2\<rparr>),
      (17663136, \<lparr>year = 2016, month = 1, day = 1, hour = 0, pm25 = None\<rparr>),
      (17663163, \<lparr>year = 2016, month = 1, day = 2, hour = 3, pm25 = Some 3\<rparr>)]"
    by code_simp
  have pr: "prepare
     [\<lparr>year = 2015, month = 12, day = 29, hour = 0, pm25 = Some 4\<rparr>,
      \<lparr>year = 2015, month = 12, day = 31, hour = 5, pm25 = Some 2\<rparr>,
      \<lparr>year = 2016, month = 1, day = 1, hour = 0, pm25 = None\<rparr>,
      \<lparr>year = 2016, month = 1, day = 2, hour = 3, pm25 = Some 3\<rparr>]
   = Inr ([\<lparr>ds = 735961, y = Some 4\<rparr>, \<lparr>ds = 735962, y = Some 4\<rparr>, \<lparr>ds = 735963, y = Some 2\<rparr>],
          [\<lparr>ds = 735964, y = None\<rparr>, \<lparr>ds = 735965, y = Some 3\<rparr>])"
    by code_simp
  have e: "ymd2ord 2015 12 31 = 735963" "ymd2ord 2016 1 1 = 735964"
    by (simp_all add: ymd2ord_def days_before_year_def days_before_month_def is_leap_def)
  from split_dates [OF ix pr] ix pr show ?thesis by (simp add: e)
qed

subsection \<open>C2: the dates of a response\<close>

text \<open>
  C2: for a request whose \<open>start\<close> and \<open>end\<close> are the dates s and e with s \<open>\<le>\<close> e, the
  serving script returns a list of predictions, and the \<open>ds\<close> of every one of them is a
  date d with s \<open>\<le>\<close> d \<open>\<le>\<close> e.
\<close>

theorem serve_dates_in_range:
  assumes "map_of req ''start'' = Some a" "map_of req ''end'' = Some b"
    and "parse_date a = Some s" "parse_date b = Some e" "s \<le> e"
  shows "\<exists>resp. serve m req = Inr resp
           \<and> (\<forall>obj \<in> set resp. \<exists>d. map_of obj ''ds'' = Some (JDate d) \<and> s \<le> d \<and> d \<le> e)"
  unfolding serve_Inr [OF assms] by (auto simp: split_def)

theorem serve_dates_in_range_witness:
  "map_of [(''start'', ''12-31-2015''), (''end'', ''1-2-2016'')] ''start'' = Some ''12-31-2015''
   \<and> map_of [(''start'', ''12-31-2015''), (''end'', ''1-2-2016'')] ''end'' = Some ''1-2-2016''
   \<and> parse_date ''12-31-2015'' = Some 735963 \<and> parse_date ''1-2-2016'' = Some 735965
   \<and> (735963 :: int) \<le> 735965
   \<and> (\<exists>resp. serve \<lparr>history_dates = [735961, 735962, 735963], forecaster = (\<lambda>d. (1, 3, 2))\<rparr>
               [(''start'', ''12-31-2015''), (''end'', ''1-2-2016'')] = Inr resp
           \<and> (\<forall>obj \<in> set resp. \<exists>d. map_of obj ''ds'' = Some (JDate d) \<and> 735963 \<le> d \<and> d \<le> 735965))"
proof -
  have k: "map_of [(''start'', ''12-31-2015''), (''end'', ''1-2-2016'')] ''start'' = Some ''12-31-2015''"
    "map_of [(''start'', ''12-31-2015''), (''end'', ''1-2-2016'')] ''end'' = Some ''1-2-2016''"
    by simp_all
  have p: "parse_date ''12-31-2015'' = Some 735963" "parse_date ''1-2-2016'' = Some 735965"
    by code_simp+
  have le: "(735963 :: int) \<le> 735965" by simp
  from serve_dates_in_range [OF k p le] k p le show ?thesis by blast
qed

subsection \<open>C3: the length of a response\<close>

text \<open>
  C3: for a request whose \<open>start\<close> and \<open>end\<close> are the dates s and e with s \<open>\<le>\<close> e, the
  serving script returns a list whose length is the number of calendar days from s to e,
  both included. For the request of the notebook, start 1-1-2016 and end 2-28-2017, the
  length is 425, the value of the \<open>prediction_periods\<close> hyperparameter of the training
  job.
\<close>

theorem serve_length:
  assumes "map_of req ''start'' = Some a" "map_of req ''end'' = Some b"
    and "parse_date a = Some s" "parse_date b = Some e" "s \<le> e"
  shows "(\<exists>resp. serve m req = Inr resp \<and> int (length resp) = e - s + 1)
       \<and> (\<exists>resp. serve m prediction_request = Inr resp \<and> length resp = 425)
       \<and> map_of prophet_estimator_hyperparameters ''prediction_periods'' = Some 425"
proof -
  have 1: "\<exists>resp. serve m req = Inr resp \<and> int (length resp) = e - s + 1"
    unfolding serve_Inr [OF assms] using assms(5) by simp
  have k: "map_of prediction_request ''start'' = Some ''1-1-2016''"
    "map_of prediction_request ''end'' = Some ''2-28-2017''"
    by (simp_all add: prediction_request_def)
  have le: "(735964 :: int) \<le> 736388" by simp
  have 2: "\<exists>resp. serve m prediction_request = Inr resp \<and> length resp = 425"
    unfolding serve_Inr [OF k request_dates le] by simp
  have 3: "map_of prophet_estimator_hyperparameters ''prediction_periods'' = Some 425"
    by (simp add: prophet_estimator_hyperparameters_def)
  from 1 2 3 show ?thesis by blast
qed

theorem serve_length_witness:
  "map_of [(''start'', ''12-31-2015''), (''end'', ''1-2-2016'')] ''start'' = Some ''12-31-2015''
   \<and> map_of [(''start'', ''12-31-2015''), (''end'', ''1-2-2016'')] ''end'' = Some ''1-2-2016''
   \<and> parse_date ''12-31-2015'' = Some 735963 \<and> parse_date ''1-2-2016'' = Some 735965
   \<and> (735963 :: int) \<le> 735965
   \<and> (\<exists>resp. serve \<lparr>history_dates = [735961, 735962, 735963], forecaster = (\<lambda>d. (1, 3, 2))\<rparr>
               [(''start'', ''12-31-2015''), (''end'', ''1-2-2016'')] = Inr resp
           \<and> int (length resp) = 735965 - 735963 + 1)"
proof -
  have k: "map_of [(''start'', ''12-31-2015''), (''end'', ''1-2-2016'')] ''start'' = Some ''12-31-2015''"
    "map_of [(''start'', ''12-31-2015''), (''end'', ''1-2-2016'')] ''end'' = Some ''1-2-2016''"
    by simp_all
  have p: "parse_date ''12-31-2015'' = Some 735963" "parse_date ''1-2-2016'' = Some 735965"
    by code_simp+
  have le: "(735963 :: int) \<le> 735965" by simp
  from serve_length [OF k p le] k p le show ?thesis by blast
qed

subsection \<open>C4: dates unique and sorted\<close>

text \<open>
  C4: in the train frame and in the test frame that the data preparation produces, the
  dates are pairwise distinct and strictly increasing, before the forward fill and after
  it; the frames after the fill are the ones that \<open>prepare\<close> returns and that are
  passed to the model.
\<close>

theorem frames_dates_sorted:
  assumes "resampled rows = Inr (train0, test0)"
  shows "sorted_wrt (<) (map ds train0) \<and> distinct (map ds train0)
       \<and> sorted_wrt (<) (map ds test0) \<and> distinct (map ds test0)
       \<and> sorted_wrt (<) (map ds (fillna_ffill train0)) \<and> distinct (map ds (fillna_ffill train0))
       \<and> sorted_wrt (<) (map ds (fillna_ffill test0)) \<and> distinct (map ds (fillna_ffill test0))
       \<and> prepare rows = Inr (fillna_ffill train0, fillna_ffill test0)"
proof -
  from assms obtain df where df: "set_index rows = Inr df"
    and tr: "train0 = daily_frame train_mask df" and te: "test0 = daily_frame test_mask df"
    by (auto simp: resampled_def split: sum.splits)
  have s: "sorted_wrt (<) (map ds (daily_frame msk df))" for msk
    by (rule sorted_ds_daily_frame)
  have d: "distinct (map ds (daily_frame msk df))" for msk
    by (simp add: ds_daily_frame Let_def)
  show ?thesis using assms s d by (simp add: tr te ds_fillna_ffill prepare_def)
qed

theorem frames_dates_sorted_witness:
  "resampled
     [\<lparr>year = 2015, month = 12, day = 29, hour = 0, pm25 = Some 4\<rparr>,
      \<lparr>year = 2015, month = 12, day = 31, hour = 5, pm25 = Some 2\<rparr>,
      \<lparr>year = 2016, month = 1, day = 1, hour = 0, pm25 = None\<rparr>,
      \<lparr>year = 2016, month = 1, day = 2, hour = 3, pm25 = Some 3\<rparr>]
   = Inr ([\<lparr>ds = 735961, y = Some 4\<rparr>, \<lparr>ds = 735962, y = None\<rparr>, \<lparr>ds = 735963, y = Some 2\<rparr>],
          [\<lparr>ds = 735964, y = None\<rparr>, \<lparr>ds = 735965, y = Some 3\<rparr>])
   \<and> sorted_wrt (<) (map ds (fillna_ffill [\<lparr>ds = 735961, y = Some 4\<rparr>, \<lparr>ds = 735962, y = None\<rparr>, \<lparr>ds = 735963, y = Some 2\<rparr>]))
   \<and> distinct (map ds (fillna_ffill [\<lparr>ds = 735964, y = None\<rparr>, \<lparr>ds = 735965, y = Some 3\<rparr>]))"
proof -
  have rs: "resampled
     [\<lparr>year = 2015, month = 12, day = 29, hour = 0, pm25 = Some 4\<rparr>,
      \<lparr>year = 2015, month = 12, day = 31, hour = 5, pm25 = Some 2\<rparr>,
      \<lparr>year = 2016, month = 1, day = 1, hour = 0, pm25 = None\<rparr>,
      \<lparr>year = 2016, month = 1, day = 2, hour = 3, pm25 = Some 3\<rparr>]
   = Inr ([\<lparr>ds = 735961, y = Some 4\<rparr>, \<lparr>ds = 735962, y = None\<rparr>, \<lparr>ds = 735963, y = Some 2\<rparr>],
          [\<lparr>ds = 735964, y = None\<rparr>, \<lparr>ds = 735965, y = Some 3\<rparr>])"
    by code_simp
  from frames_dates_sorted [OF rs] rs show ?thesis by simp
qed

subsection \<open>C5: the shape of requests and responses\<close>



subsection \<open>C6: hyperparameter names\<close>


subsection \<open>C7: failures propagate\<close>



subsection \<open>C8: the local forecast\<close>

text \<open>
  C8: when cells 10 to 12 run through, the forecast made with
  \<open>make_future_dataframe(periods=test.shape[0], include_history=False)\<close> has exactly as
  many rows as the test frame, its dates are the consecutive days that follow the last
  training date, every one of them lies strictly after every training date, and none of
  them is a date of the training frame.
\<close>

theorem local_forecast_after_training:
  assumes "local_forecast opt rows = Inr (train, test, forecast)"
  shows "length forecast = length test
       \<and> map fc_ds forecast = map (\<lambda>i. Max (set (map ds train)) + 1 + int i) [0..<length test]
       \<and> (\<forall>f \<in> set forecast. \<forall>r \<in> set train. ds r < fc_ds f)
       \<and> set (map fc_ds forecast) \<inter> set (map ds train) = {}"
proof -
  let ?M = "Max (set (map ds train))"
  note dates = local_forecast_dates(2) [OF assms]
  have len: "length forecast = length test"
    using arg_cong [OF dates, of length] by simp
  have later: "ds r < fc_ds f" if f: "f \<in> set forecast" and r: "r \<in> set train" for f r
  proof -
    have "ds r \<le> ?M" using r by (intro Max_ge) auto
    moreover have "fc_ds f \<in> set (map fc_ds forecast)" using f by simp
    then have "?M < fc_ds f" unfolding dates by auto
    ultimately show ?thesis by simp
  qed
  have disj: "set (map fc_ds forecast) \<inter> set (map ds train) = {}"
    using later by fastforce
  from len dates later disj show ?thesis by blast
qed

theorem local_forecast_after_training_witness:
  "local_forecast (\<lambda>df d. (1, 3, 2))
     [\<lparr>year = 2015, month = 12, day = 29, hour = 0, pm25 = Some 4\<rparr>,
      \<lparr>year = 2015, month = 12, day = 31, hour = 5, pm25 = Some 2\<rparr>,
      \<lparr>year = 2016, month = 1, day = 1, hour = 0, pm25 = None\<rparr>,
      \<lparr>year = 2016, month = 1, day = 2, hour = 3, pm25 = Some 3\<rparr>]
   = Inr ([\<lparr>ds = 735961, y = Some 4\<rparr>, \<lparr>ds = 735962, y = Some 4\<rparr>, \<lparr>ds = 735963, y = Some 2\<rparr>],
          [\<lparr>ds = 735964, y = None\<rparr>, \<lparr>ds = 735965, y = Some 3\<rparr>],
          [\<lparr>fc_ds = 735964, yhat_lower = 1, yhat_upper = 3, yhat = 2\<rparr>,
           \<lparr>fc_ds = 735965, yhat_lower = 1, yhat_upper = 3, yhat = 2\<rparr>])
   \<and> length [\<lparr>fc_ds = 735964, yhat_lower = 1, yhat_upper = 3, yhat = 2\<rparr>,
           \<lparr>fc_ds = 735965, yhat_lower = 1, yhat_upper = 3, yhat = 2\<rparr>]
     = length [\<lparr>ds = 735964, y = None\<rparr>, \<lparr>ds = 735965, y = Some 3\<rparr>]
   \<and> set (map fc_ds [\<lparr>fc_ds = 735964, yhat_lower = 1, yhat_upper = 3, yhat = 2\<rparr>,
           \<lparr>fc_ds = 735965, yhat_lower = 1, yhat_upper = 3, yhat = 2\<rparr>])
     \<inter> set (map ds [\<lparr>ds = 735961, y = Some 4\<rparr>, \<lparr>ds = 735962, y = Some 4\<rparr>, \<lparr>ds = 735963, y = Some 2\<rparr>]) = {}"
proof -
  have lf: "local_forecast (\<lambda>df d. (1, 3, 2))
     [\<lparr>year = 2015, month = 12, day = 29, hour = 0, pm25 = Some 4\<rparr>,
      \<lparr>year = 2015, month = 12, day = 31, hour = 5, pm25 = Some 2\<rparr>,
      \<lparr>year = 2016, month = 1, day = 1, hour = 0, pm25 = None\<rparr>,
      \<lparr>year = 2016, month = 1, day = 2, hour = 3, pm25 = Some 3\<rparr>]
   = Inr ([\<lparr>ds = 735961, y = Some 4\<rparr>, \<lparr>ds = 735962, y = Some 4\<rparr>, \<lparr>ds = 735963, y = Some 2\<rparr>],
          [\<lparr>ds = 735964, y = None\<rparr>, \<lparr>ds = 735965, y = Some 3\<rparr>],
          [\<lparr>fc_ds = 735964, yhat_lower = 1, yhat_upper = 3, yhat = 2\<rparr>,
           \<lparr>fc_ds = 735965, yhat_lower = 1, yhat_upper = 3, yhat = 2\<rparr>])"
    by code_simp
  from local_forecast_after_training [OF lf] lf show ?thesis by simp
qed

subsection \<open>C9: the uploaded CSV files\<close>



subsection \<open>C10: forward fill\<close>

text \<open>
  C10: after the forward fill the y column of a frame (train or test) has no missing
  value, provided the first daily average of that frame is not missing; when the first
  daily average is missing, the forward fill leaves it missing.
\<close>

theorem ffill_no_missing:
  assumes rs: "resampled rows = Inr (train0, test0)" and pr: "prepare rows = Inr (train, test)"
  shows "(train0 \<noteq> [] \<and> y (hd train0) \<noteq> None \<longrightarrow> (\<forall>r \<in> set train. y r \<noteq> None))
       \<and> (train0 \<noteq> [] \<and> y (hd train0) = None \<longrightarrow> y (hd train) = None)
       \<and> (test0 \<noteq> [] \<and> y (hd test0) \<noteq> None \<longrightarrow> (\<forall>r \<in> set test. y r \<noteq> None))
       \<and> (test0 \<noteq> [] \<and> y (hd test0) = None \<longrightarrow> y (hd test) = None)"
proof -
  from rs pr have tr: "train = fillna_ffill train0" and te: "test = fillna_ffill test0"
    by (simp_all add: prepare_def)
  from ffill_first [of train0] ffill_first [of test0] show ?thesis
    unfolding tr te by blast
qed

theorem ffill_no_missing_witness:
  "resampled
     [\<lparr>year = 2015, month = 12, day = 29, hour = 0, pm25 = Some 4\<rparr>,
      \<lparr>year = 2015, month = 12, day = 31, hour = 5, pm25 = Some 2\<rparr>,
      \<lparr>year = 2016, month = 1, day = 1, hour = 0, pm25 = None\<rparr>,
      \<lparr>year = 2016, month = 1, day = 2, hour = 3, pm25 = Some 3\<rparr>]
   = Inr ([\<lparr>ds = 735961, y = Some 4\<rparr>, \<lparr>ds = 735962, y = None\<rparr>, \<lparr>ds = 735963, y = Some 2\<rparr>],
          [\<lparr>ds = 735964, y = None\<rparr>, \<lparr>ds = 735965, y = Some 3\<rparr>])
   \<and> prepare
     [\<lparr>year = 2015, month = 12, day = 29, hour = 0, pm25 = Some 4\<rparr>,
      \<lparr>year = 2015, month = 12, day = 31, hour = 5, pm25 = Some 2\<rparr>,
      \<lparr>year = 2016, month = 1, day = 1, hour = 0, pm25 = None\<rparr>,
      \<lparr>year = 2016, month = 1, day = 2, hour = 3, pm25 = Some 3\<rparr>]
   = Inr ([\<lparr>ds = 735961, y = Some 4\<rparr>, \<lparr>ds = 735962, y = Some 4\<rparr>, \<lparr>ds = 735963, y = Some 2\<rparr>],
          [\<lparr>ds = 735964, y = None\<rparr>, \<lparr>ds = 735965, y = Some 3\<rparr>])
   \<and> list_all (\<lambda>r. y r \<noteq> None) [\<lparr>ds = 735961, y = Some 4\<rparr>, \<lparr>ds = 735962, y = Some 4\<rparr>, \<lparr>ds = 735963, y = Some 2\<rparr>]
   \<and> y (hd [\<lparr>ds = 735964, y = None\<rparr>, \<lparr>ds = 735965, y = Some 3\<rparr>]) = None"
proof -
  have rs: "resampled
     [\<lparr>year = 2015, month = 12, day = 29, hour = 0, pm25 = Some 4\<rparr>,
      \<lparr>year = 2015, month = 12, day = 31, hour = 5, pm25 = Some 2\<rparr>,
      \<lparr>year = 2016, month = 1, day = 1, hour = 0, pm25 = None\<rparr>,
      \<lparr>year = 2016, month = 1, day = 2, hour = 3, pm25 = Some 3\<rparr>]
   = Inr ([\<lparr>ds = 735961, y = Some 4\<rparr>, \<lparr>ds = 735962, y = None\<rparr>, \<lparr>ds = 735963, y = Some 2\<rparr>],
          [\<lparr>ds = 735964, y = None\<rparr>, \<lparr>ds = 735965, y = Some 3\<rparr>])"
    by code_simp
  have pr: "prepare
     [\<lparr>year = 2015, month = 12, day = 29, hour = 0, pm25 = Some 4\<rparr>,
      \<lparr>year = 2015, month = 12, day = 31, hour = 5, pm25 = Some 2\<rparr>,
      \<lparr>year = 2016, month = 1, day = 1, hour = 0, pm25 = None\<rparr>,
      \<lparr>year = 2016, month = 1, day = 2, hour = 3, pm25 = Some 3\<rparr>]
   = Inr ([\<lparr>ds = 735961, y = Some 4\<rparr>, \<lparr>ds = 735962, y = Some 4\<rparr>, \<lparr>ds = 735963, y = Some 2\<rparr>],
          [\<lparr>ds = 735964, y = None\<rparr>, \<lparr>ds = 735965, y = Some 3\<rparr>])"
    by code_simp
  from ffill_no_missing [OF rs pr] show ?thesis using rs pr by simp
qed

end
